theory Spec2Isabelle
  imports Complex_Main
begin

text \<open>
  The module \<open>barcode_overlay_gui.py\<close> composes one A4 page: a text at the top, the first
  page of a barcode document scaled to a fixed width in the middle, and a label below it;
  the file is named after the label. This theory embeds the functions of the module
  (\<open>sanitize_filename\<close>, \<open>draw_base_a4_with_text_and_label\<close>, \<open>compose_final_pdf\<close>,
  \<open>App.create_pdf\<close>) and proves the properties C1 to C10 of its specification, or shows
  where the code does otherwise.
\<close>

section \<open>Strings\<close>

text \<open>
  A Python \<open>str\<close> is a sequence of Unicode code points. A code point is modelled as a natural
  number and a string as a list of code points, so that \<open>length\<close> counts what \<open>len\<close> counts and
  letters outside ASCII (which the sanitizer has to keep) are single characters.
\<close>

type_synonym ustr = "nat list"

definition ustr :: "string \<Rightarrow> ustr" where
  "ustr s = map of_char s"

text \<open>
  The characters for which \<open>str.isspace\<close> holds. \<open>str.strip()\<close> without argument removes
  exactly these, and the class \<open>\s\<close> of a \<open>str\<close> pattern matches exactly these.
\<close>

definition is_space :: "nat \<Rightarrow> bool" where
  "is_space c \<longleftrightarrow>
     (9 \<le> c \<and> c \<le> 13) \<or> (28 \<le> c \<and> c \<le> 32) \<or> c = 133 \<or> c = 160 \<or> c = 5760 \<or>
     (8192 \<le> c \<and> c \<le> 8202) \<or> c = 8232 \<or> c = 8233 \<or> c = 8239 \<or> c = 8287 \<or> c = 12288"

text \<open>The character class \<open>[\\/:"*?<>|]\<close> of the sanitizer's first pattern.\<close>

definition forbidden :: "nat \<Rightarrow> bool" where
  "forbidden c \<longleftrightarrow> c \<in> {92, 47, 58, 34, 42, 63, 60, 62, 124}"

definition strip :: "ustr \<Rightarrow> ustr" where
  "strip s = rev (dropWhile is_space (rev (dropWhile is_space s)))"

text \<open>
  \<open>re.sub(r'[C]+', r, s)\<close> for a character class \<open>C\<close>: scanning from the left, every maximal
  run of characters of the class is replaced by \<open>r\<close>, every other character is kept.
\<close>

function re_sub_runs :: "(nat \<Rightarrow> bool) \<Rightarrow> ustr \<Rightarrow> ustr \<Rightarrow> ustr" where
  "re_sub_runs C r [] = []"
| "re_sub_runs C r (c # cs) =
     (if C c then r @ re_sub_runs C r (dropWhile C cs) else c # re_sub_runs C r cs)"
  by pat_completeness auto
termination
  by (relation "measure (\<lambda>(C, r, s). length s)")
     (auto simp: le_imp_less_Suc length_dropWhile_le)

definition sanitize_filename :: "ustr \<Rightarrow> ustr" where
  "sanitize_filename name0 =
     (let name1 = strip name0;
          name2 = re_sub_runs forbidden (ustr ''-'') name1;
          name3 = strip (re_sub_runs is_space (ustr '' '') name2)
      in if name3 \<noteq> [] then take 120 name3 else ustr ''output'')"

text \<open>
  \<open>single_spaced s\<close>: every whitespace character of \<open>s\<close> is the space and is not followed
  by a whitespace character. These are the strings that collapsing the whitespace leaves
  as they are.
\<close>

fun single_spaced :: "ustr \<Rightarrow> bool" where
  "single_spaced [] = True"
| "single_spaced [c] = (if is_space c then c = 32 else True)"
| "single_spaced (c # d # s) =
     ((if is_space c then c = 32 \<and> \<not> is_space d else True) \<and> single_spaced (d # s))"

section \<open>Floating-point arithmetic\<close>

text \<open>
  A Python \<open>float\<close> is an IEEE 754 binary64 number; a finite one is a real number. Every
  arithmetic operation of the source on floats is the exact operation on the reals followed
  by a rounding. The rounding is a parameter \<open>fl\<close> of the layout functions below, so that a
  statement proved for every \<open>fl\<close> holds whatever the rounding does; \<open>fl = binary64\<close> is
  what the interpreter computes and \<open>fl = (\<lambda>t. t)\<close> is exact arithmetic.
\<close>

text \<open>\<open>rel_err u f t\<close>: rounding \<open>t\<close> with \<open>f\<close> makes a relative error of at most \<open>u\<close>.\<close>

definition rel_err :: "real \<Rightarrow> (real \<Rightarrow> real) \<Rightarrow> real \<Rightarrow> bool" where
  "rel_err u f t \<longleftrightarrow> \<bar>f t - t\<bar> \<le> u * \<bar>t\<bar>"

text \<open>The number of binary digits of a positive integer.\<close>

function bitlen :: "int \<Rightarrow> nat" where
  "bitlen n = (if n \<le> 0 then 0 else Suc (bitlen (n div 2)))"
  by pat_completeness auto
termination
  by (relation "measure nat") auto

declare bitlen.simps [simp del]

text \<open>\<open>ilog2 x\<close> is the integer \<open>k\<close> with \<open>2^k \<le> x < 2^(k+1)\<close>, for \<open>x > 0\<close>.\<close>

definition ilog2 :: "real \<Rightarrow> int" where
  "ilog2 x = (if 1 \<le> x then int (bitlen \<lfloor>x\<rfloor>) - 1
              else - int (bitlen (\<lceil>1 / x\<rceil> - 1)))"

definition round_half_even :: "real \<Rightarrow> int" where
  "round_half_even x =
     (let n = \<lfloor>x\<rfloor>; r = x - of_int n
      in if r < 1 / 2 then n else if 1 / 2 < r then n + 1 else if even n then n else n + 1)"

text \<open>
  Rounding to the nearest binary64 number, ties to even: 53 significant bits, and the
  spacing \<open>2^-1074\<close> of the subnormal numbers below \<open>2^-1022\<close>. A result beyond the largest
  finite binary64 number (an infinity in Python) is outside this model.
\<close>

definition binary64 :: "real \<Rightarrow> real" where
  "binary64 x =
     (if x = 0 then 0
      else let e = max (ilog2 \<bar>x\<bar> - 52) (- 1074)
           in sgn x * of_int (round_half_even (\<bar>x\<bar> / 2 powi e)) * 2 powi e)"

section \<open>Pages, files and what the module imports\<close>

type_synonym bytes = "nat list"
type_synonym path = "ustr list"
type_synonym font = "ustr \<times> nat"

text \<open>
  The content of a page is the sequence of drawing operations made on it. \<open>Foreign\<close> is an
  operation of a source document; \<open>Transformed s tx ty\<close> is an operation under the matrix that
  scales by \<open>s\<close> and then translates by \<open>(tx, ty)\<close>.
\<close>

datatype draw =
    DrawString font real real ustr
  | DrawCentredString font real real ustr
  | Foreign nat
  | Transformed real real real draw

text \<open>A page whose content stream cannot be decoded has \<open>stream = None\<close>.\<close>

record page =
  mediabox_width :: real
  mediabox_height :: real
  stream :: "draw list option"

text \<open>
  The exceptions: those of the interpreter and of the operating system (\<open>OSError\<close> with its
  error number, and its subclasses by their names), and the reader's.
\<close>

datatype errno = ENAMETOOLONG | ENOSPC

datatype error =
    FileNotFoundError
  | IsADirectoryError
  | PermissionError
  | ValueError
  | PdfReadError
  | IndexError
  | ZeroDivisionError
  | OSError errno

text \<open>
  What the module takes from outside: the float rounding, the page size \<open>A4\<close> and the line
  breaker \<open>simpleSplit text fontName fontSize maxWidth\<close> of reportlab, the decoding of a text
  file (\<open>errors="replace"\<close>, so it is total), the PDF reader (\<open>None\<close> when it raises) and writer
  of pypdf, and the parsing of a path string by pathlib.
\<close>

record env =
  fl :: "real \<Rightarrow> real"
  PAGE_W :: real
  PAGE_H :: real
  simpleSplit :: "ustr \<Rightarrow> ustr \<Rightarrow> real \<Rightarrow> real \<Rightarrow> ustr list"
  decode :: "bytes \<Rightarrow> ustr"
  PdfReader :: "bytes \<Rightarrow> page list option"
  PdfWriter :: "page list \<Rightarrow> bytes"
  Path :: "ustr \<Rightarrow> path"

text \<open>
  The file system: the regular files with their bytes, the directories, the number of
  bytes the device still accepts (\<open>None\<close>: no limit), which is where a write fails, the
  longest file name it takes, in bytes, and the paths that the operating system refuses to
  open for reading or for writing for any other reason (no permission, a read-only file
  system), each with the exception that \<open>open\<close> raises for it.
\<close>

record world =
  files :: "path \<rightharpoonup> bytes"
  dirs :: "path set"
  capacity :: "nat option"
  name_max :: nat
  no_read :: "path \<rightharpoonup> error"
  no_write :: "path \<rightharpoonup> error"

definition path_exists :: "world \<Rightarrow> path \<Rightarrow> bool" where
  "path_exists w p \<longleftrightarrow> p \<in> dom (files w) \<or> p \<in> dirs w"

definition parent :: "path \<Rightarrow> path" where
  "parent p = butlast p"

text \<open>The length of a file name in bytes, as the file system counts it: in UTF-8.\<close>

definition utf8_len :: "nat \<Rightarrow> nat" where
  "utf8_len c = (if c < 128 then 1 else if c < 2048 then 2 else if c < 65536 then 3 else 4)"

definition name_bytes :: "ustr \<Rightarrow> nat" where
  "name_bytes s = sum_list (map utf8_len s)"

text \<open>A path with the character of code 0 in it is refused by the interpreter itself.\<close>

definition has_nul :: "path \<Rightarrow> bool" where
  "has_nul p = list_ex (\<lambda>s. 0 \<in> set s) p"

text \<open>Reading a whole file, as \<open>Path.read_text\<close> and the PDF reader do before they decode.\<close>

definition read_file :: "world \<Rightarrow> path \<Rightarrow> error + bytes" where
  "read_file w p =
     (if has_nul p then Inl ValueError
      else if p \<in> dirs w then Inl IsADirectoryError
      else case no_read w p of
             Some err \<Rightarrow> Inl err
           | None \<Rightarrow> (case files w p of None \<Rightarrow> Inl FileNotFoundError | Some b \<Rightarrow> Inr b))"

text \<open>
  \<open>open(p, "wb")\<close>: the exception it raises, in which case no file is created and none is
  changed, or \<open>None\<close> when it opens the file.
\<close>

definition open_wb :: "world \<Rightarrow> path \<Rightarrow> error option" where
  "open_wb w p =
     (if has_nul p then Some ValueError
      else if p = [] \<or> p \<in> dirs w then Some IsADirectoryError
      else if parent p \<notin> dirs w then Some FileNotFoundError
      else if name_max w < name_bytes (last p) then Some (OSError ENAMETOOLONG)
      else no_write w p)"

section \<open>Module constants\<close>

definition MARGIN :: real where
  "MARGIN = 36"

definition BARCODE_TARGET_W :: real where
  "BARCODE_TARGET_W = 360"

definition GAP_BARCODE_LABEL :: real where
  "GAP_BARCODE_LABEL = 14"

definition TOP_TEXT_FONT :: font where
  "TOP_TEXT_FONT = (ustr ''Helvetica'', 10)"

definition LABEL_FONT :: font where
  "LABEL_FONT = (ustr ''Helvetica'', 12)"

section \<open>The background page\<close>

text \<open>The line boundaries of \<open>str.splitlines\<close>.\<close>

definition is_linebreak :: "nat \<Rightarrow> bool" where
  "is_linebreak c \<longleftrightarrow> (10 \<le> c \<and> c \<le> 13) \<or> (28 \<le> c \<and> c \<le> 30) \<or> c = 133 \<or> c = 8232 \<or> c = 8233"

text \<open>
  \<open>splitlines_from cur s\<close>: the lines of \<open>s\<close>, the first of them continuing the line \<open>cur\<close> that is
  being read. A carriage return followed by a line feed is one boundary, and no empty line
  follows a boundary at the end of the string.
\<close>

fun splitlines_from :: "ustr \<Rightarrow> ustr \<Rightarrow> ustr list" where
  "splitlines_from cur [] = (if cur = [] then [] else [cur])"
| "splitlines_from cur [c] = (if is_linebreak c then [cur] else [cur @ [c]])"
| "splitlines_from cur (c # d # cs) =
     (if c = 13 \<and> d = 10 then cur # splitlines_from [] cs
      else if is_linebreak c then cur # splitlines_from [] (d # cs)
      else splitlines_from (cur @ [c]) (d # cs))"

definition splitlines :: "ustr \<Rightarrow> ustr list" where
  "splitlines s = splitlines_from [] s"

text \<open>The first loop of \<open>draw_base_a4_with_text_and_label\<close>: the wrapped lines of the text.\<close>

definition wrapped_lines :: "env \<Rightarrow> ustr \<Rightarrow> ustr list" where
  "wrapped_lines e top_text =
     (let font_name = fst TOP_TEXT_FONT; font_size = real (snd TOP_TEXT_FONT);
          available_width = fl e (PAGE_W e - 2 * MARGIN)
      in concat (map
           (\<lambda>paragraph.
              let lines = simpleSplit e (if paragraph \<noteq> [] then paragraph else ustr '' '')
                            font_name font_size available_width
              in if lines \<noteq> [] then lines else [[]])
           (if splitlines top_text \<noteq> [] then splitlines top_text else [[]])))"

text \<open>
  The second loop: \<open>draw_lines f line_height y_text lines\<close> draws line after line at
  \<open>y_text - line_height\<close> and stops at the first line that would lie below the margin.
\<close>

fun draw_lines :: "(real \<Rightarrow> real) \<Rightarrow> real \<Rightarrow> real \<Rightarrow> ustr list \<Rightarrow> draw list" where
  "draw_lines f line_height y_text [] = []"
| "draw_lines f line_height y_text (line # rest) =
     (if f (y_text - line_height) < MARGIN then []
      else DrawString TOP_TEXT_FONT MARGIN (f (y_text - line_height)) line
             # draw_lines f line_height (f (y_text - line_height)) rest)"

definition line_height :: "env \<Rightarrow> real" where
  "line_height e = fl e (real (snd TOP_TEXT_FONT) * fl e (13 / 10))"

definition draw_top_text :: "env \<Rightarrow> ustr list \<Rightarrow> draw list" where
  "draw_top_text e lines = draw_lines (fl e) (line_height e) (fl e (PAGE_H e - MARGIN)) lines"

text \<open>The value of the variable \<open>y_text\<close> after \<open>n\<close> lines have been drawn.\<close>

definition y_text_after :: "env \<Rightarrow> nat \<Rightarrow> real" where
  "y_text_after e n = ((\<lambda>y. fl e (y - line_height e)) ^^ n) (fl e (PAGE_H e - MARGIN))"

text \<open>
  The function returns the bytes of a one-page document and the position of the barcode;
  the caller reads the bytes back and takes the page. The model returns the page itself.
\<close>

definition draw_base_a4_with_text_and_label ::
  "env \<Rightarrow> ustr \<Rightarrow> ustr \<Rightarrow> real \<Rightarrow> real \<Rightarrow> page \<times> (real \<times> real)" where
  "draw_base_a4_with_text_and_label e top_text label_text barcode_w_pt barcode_h_pt =
     (let x = fl e (fl e (PAGE_W e - barcode_w_pt) / 2);
          y = fl e (fl e (PAGE_H e - barcode_h_pt) / 2);
          label_x_center = fl e (PAGE_W e / 2);
          label_y = fl e (y - GAP_BARCODE_LABEL)
      in (\<lparr>mediabox_width = PAGE_W e, mediabox_height = PAGE_H e,
           stream = Some (draw_top_text e (wrapped_lines e top_text)
                          @ [DrawCentredString LABEL_FONT label_x_center label_y label_text])\<rparr>,
          (x, y)))"

section \<open>Composing the final page\<close>

text \<open>
  \<open>page.merge_transformed_page(page2, ctm)\<close> of pypdf: the content of \<open>page2\<close>, under the matrix,
  is appended to the content of the page; it raises when a content stream cannot be decoded.
\<close>

definition merge_transformed_page :: "page \<Rightarrow> page \<Rightarrow> real \<times> real \<times> real \<Rightarrow> error + page" where
  "merge_transformed_page base page2 t =
     (case (stream base, stream page2) of
        (Some ops, Some ops2) \<Rightarrow>
          (case t of (s, tx, ty) \<Rightarrow> Inr (base\<lparr>stream := Some (ops @ map (Transformed s tx ty) ops2)\<rparr>))
      | _ \<Rightarrow> Inl PdfReadError)"

text \<open>Lines 82 to 84: the scale and the size of the placed barcode.\<close>

definition scale :: "env \<Rightarrow> real \<Rightarrow> real" where
  "scale e bc_w = fl e (BARCODE_TARGET_W / bc_w)"

definition barcode_w_pt :: "env \<Rightarrow> real \<Rightarrow> real" where
  "barcode_w_pt e bc_w = fl e (bc_w * scale e bc_w)"

definition barcode_h_pt :: "env \<Rightarrow> real \<Rightarrow> real \<Rightarrow> real" where
  "barcode_h_pt e bc_w bc_h = fl e (bc_h * scale e bc_w)"

text \<open>Lines 78 to 98: from the first page of the barcode document to the page that is written.\<close>

definition compose_page :: "env \<Rightarrow> ustr \<Rightarrow> page \<Rightarrow> ustr \<Rightarrow> error + page" where
  "compose_page e top_text bc_page label_text =
     (let bc_w = mediabox_width bc_page; bc_h = mediabox_height bc_page
      in if bc_w = 0 then Inl ZeroDivisionError
         else case draw_base_a4_with_text_and_label e top_text label_text
                     (barcode_w_pt e bc_w) (barcode_h_pt e bc_w bc_h) of
                (base_page, (x, y)) \<Rightarrow> merge_transformed_page base_page bc_page (scale e bc_w, x, y))"

text \<open>
  Lines 105 and 106: \<open>open(out_path, "wb")\<close>, when it does not raise, creates the file, or
  empties the one that is there, before anything is written; the write then fails when the
  device is full, and what it has written so far stays in the file.
\<close>

definition write_file :: "world \<Rightarrow> path \<Rightarrow> bytes \<Rightarrow> world \<times> (error + path)" where
  "write_file w out_path data =
     (case open_wb w out_path of
        Some err \<Rightarrow> (w, Inl err)
      | None \<Rightarrow>
          (case capacity w of
             None \<Rightarrow> (w\<lparr>files := (files w)(out_path \<mapsto> data)\<rparr>, Inr out_path)
           | Some n \<Rightarrow>
               if n < length data
               then (w\<lparr>files := (files w)(out_path \<mapsto> take n data), capacity := Some 0\<rparr>,
                     Inl (OSError ENOSPC))
               else (w\<lparr>files := (files w)(out_path \<mapsto> data),
                       capacity := Some (n - length data)\<rparr>, Inr out_path)))"

definition out_path_of :: "path \<Rightarrow> ustr \<Rightarrow> path option \<Rightarrow> path" where
  "out_path_of barcode_pdf_path label_text out_dir =
     (let out_name = sanitize_filename label_text @ ustr ''.pdf'';
          target_dir = (case out_dir of Some d \<Rightarrow> d | None \<Rightarrow> parent barcode_pdf_path)
      in target_dir @ [out_name])"

definition compose_final_pdf ::
  "env \<Rightarrow> world \<Rightarrow> path \<Rightarrow> path \<Rightarrow> ustr \<Rightarrow> path option \<Rightarrow> world \<times> (error + path)" where
  "compose_final_pdf e w barcode_pdf_path txt_path label_text out_dir =
     (case read_file w txt_path of
        Inl err \<Rightarrow> (w, Inl err)
      | Inr txt_bytes \<Rightarrow>
          (case read_file w barcode_pdf_path of
             Inl err \<Rightarrow> (w, Inl err)
           | Inr pdf_bytes \<Rightarrow>
               (case PdfReader e pdf_bytes of
                  None \<Rightarrow> (w, Inl PdfReadError)
                | Some [] \<Rightarrow> (w, Inl IndexError)
                | Some (bc_page # _) \<Rightarrow>
                    (case compose_page e (decode e txt_bytes) bc_page label_text of
                       Inl err \<Rightarrow> (w, Inl err)
                     | Inr final_page \<Rightarrow>
                         write_file w (out_path_of barcode_pdf_path label_text out_dir)
                           (PdfWriter e [final_page])))))"

section \<open>The form\<close>

record form =
  src_pdf :: ustr
  txt_file :: ustr
  out_dir :: ustr
  label_text :: ustr

text \<open>The message boxes of \<open>App.create_pdf\<close>, in the order of the source.\<close>

datatype dialog =
    InvalidPdf
  | InvalidTxt
  | LabelRequired
  | Created path
  | Failed error

definition create_pdf :: "env \<Rightarrow> world \<Rightarrow> form \<Rightarrow> world \<times> dialog" where
  "create_pdf e w f =
     (let src = strip (src_pdf f); txt = strip (txt_file f); label = strip (label_text f)
      in if src = [] \<or> \<not> path_exists w (Path e src) then (w, InvalidPdf)
         else if txt = [] \<or> \<not> path_exists w (Path e txt) then (w, InvalidTxt)
         else if label = [] then (w, LabelRequired)
         else let od = (if strip (out_dir f) \<noteq> [] then Some (Path e (strip (out_dir f))) else None)
              in case compose_final_pdf e w (Path e src) (Path e txt) label od of
                   (w', Inr out_path) \<Rightarrow> (w', Created out_path)
                 | (w', Inl err) \<Rightarrow> (w', Failed err))"

section \<open>Example inputs\<close>

text \<open>A label of 121 characters: 119 times the letter a, a space, the letter b.\<close>

definition long_label :: ustr where
  "long_label = replicate 119 97 @ ustr '' b''"

text \<open>
  An environment to run the functions in. The page size is \<open>A4\<close> as reportlab computes it
  (210 mm and 297 mm in points, in binary64). The line breaker is the one of a page wide
  enough for every paragraph: no line for a blank paragraph, one line otherwise. A document
  of two bytes \<open>w\<close>, \<open>h\<close> reads as one page of that size with one operation on it, any
  other document is malformed; a document is written as four bytes for each of its pages.
\<close>

definition one_line :: "ustr \<Rightarrow> ustr \<Rightarrow> real \<Rightarrow> real \<Rightarrow> ustr list" where
  "one_line text fontName fontSize maxWidth = (if strip text = [] then [] else [text])"

definition small_reader :: "bytes \<Rightarrow> page list option" where
  "small_reader b =
     (case b of
        [w, h] \<Rightarrow> Some [\<lparr>mediabox_width = real w, mediabox_height = real h,
                         stream = Some [Foreign 0]\<rparr>]
      | _ \<Rightarrow> None)"

definition small_writer :: "page list \<Rightarrow> bytes" where
  "small_writer ps = concat (map (\<lambda>p. ustr ''%PDF'') ps)"

definition exact_env :: env where
  "exact_env =
     \<lparr>fl = (\<lambda>t. t),
      PAGE_W = 5236099468337991 / 8796093022208,
      PAGE_H = 7405340676649445 / 8796093022208,
      simpleSplit = one_line, decode = (\<lambda>b. b),
      PdfReader = small_reader, PdfWriter = small_writer, Path = (\<lambda>s. [s])\<rparr>"

definition float_env :: env where
  "float_env = exact_env\<lparr>fl := binary64\<rparr>"

text \<open>The same environment with a page 100 points high, which has room for two lines.\<close>

definition short_env :: env where
  "short_env = exact_env\<lparr>PAGE_H := 100\<rparr>"

text \<open>
  A file system with a barcode document of 39 by 50 points and a text file in the root
  directory, on a device that accepts two more bytes; file names have up to 255 bytes, and
  nothing else is refused.
\<close>

definition full_disk :: world where
  "full_disk =
     \<lparr>files = [[ustr ''bc.pdf''] \<mapsto> [39, 50], [ustr ''top.txt''] \<mapsto> ustr ''Lot 42''],
      dirs = {[]}, capacity = Some 2, name_max = 255,
      no_read = Map.empty, no_write = Map.empty\<rparr>"

text \<open>The same file system on a device without limit.\<close>

definition open_disk :: world where
  "open_disk = full_disk\<lparr>capacity := None\<rparr>"

text \<open>A label of 120 euro signs: 360 bytes in UTF-8.\<close>

definition euro_label :: ustr where
  "euro_label = replicate 120 8364"

text \<open>A text of three lines.\<close>

definition three_lines :: ustr where
  "three_lines = ustr ''a'' @ [10] @ ustr ''b'' @ [10] @ ustr ''c''"

text \<open>The form filled in with the two files and a label of three spaces.\<close>

definition blank_form :: form where
  "blank_form =
     \<lparr>src_pdf = ustr ''bc.pdf'', txt_file = ustr ''top.txt'', out_dir = [],
      label_text = ustr ''   ''\<rparr>"

section \<open>Properties of the sanitizer\<close>

lemma set_strip: "set (strip s) \<subseteq> set s"
proof -
  have "set (strip s) = set (dropWhile is_space (rev (dropWhile is_space s)))"
    by (simp add: strip_def)
  also have "\<dots> \<subseteq> set (rev (dropWhile is_space s))"
    using set_dropWhileD by fastforce
  also have "\<dots> \<subseteq> set s"
    using set_dropWhileD by fastforce
  finally show ?thesis .
qed

lemma set_re_sub_runs: "set (re_sub_runs C r s) \<subseteq> set r \<union> {c \<in> set s. \<not> C c}"
proof (induction C r s rule: re_sub_runs.induct)
  case (1 C r)
  then show ?case by simp
next
  case (2 C r c cs)
  show ?case
  proof (cases "C c")
    case True
    have "set (dropWhile C cs) \<subseteq> set cs" using set_dropWhileD by fastforce
    with True 2(1) show ?thesis by auto
  next
    case False
    with 2(2) show ?thesis by auto
  qed
qed

lemma hd_strip: "strip s \<noteq> [] \<Longrightarrow> \<not> is_space (hd (strip s))"
proof -
  assume ne: "strip s \<noteq> []"
  let ?t = "dropWhile is_space s"
  let ?u = "dropWhile is_space (rev ?t)"
  have u: "?u \<noteq> []" using ne by (simp add: strip_def)
  have t: "?t \<noteq> []"
  proof
    assume "?t = []"
    then have "?u = []" by (simp only: rev.simps dropWhile.simps)
    with u show False by (simp only: not_True_eq_False simp_thms)
  qed
  have "hd (strip s) = last ?u" using u by (simp add: strip_def hd_rev)
  also have "\<dots> = last (rev ?t)" using u by (metis last_appendR takeWhile_dropWhile_id)
  also have "\<dots> = hd ?t" using t by (simp add: last_rev)
  finally show ?thesis using t hd_dropWhile by metis
qed

lemma last_strip: "strip s \<noteq> [] \<Longrightarrow> \<not> is_space (last (strip s))"
proof -
  assume ne: "strip s \<noteq> []"
  let ?u = "dropWhile is_space (rev (dropWhile is_space s))"
  have u: "?u \<noteq> []" using ne by (simp add: strip_def)
  have "last (strip s) = hd ?u" using u by (simp add: strip_def last_rev)
  then show ?thesis using u hd_dropWhile by metis
qed

lemma strip_id: "s \<noteq> [] \<Longrightarrow> \<not> is_space (hd s) \<Longrightarrow> \<not> is_space (last s) \<Longrightarrow> strip s = s"
proof -
  assume a: "s \<noteq> []" "\<not> is_space (hd s)" "\<not> is_space (last s)"
  have 1: "dropWhile is_space s = s" using a by (cases s) auto
  have "rev s \<noteq> []" "\<not> is_space (hd (rev s))" using a by (simp_all add: hd_rev)
  then have 2: "dropWhile is_space (rev s) = rev s" by (cases "rev s") auto
  show ?thesis by (simp add: strip_def 1 2)
qed

lemma re_sub_runs_append:
  "\<forall>c\<in>set xs. \<not> C c \<Longrightarrow> re_sub_runs C r (xs @ ys) = xs @ re_sub_runs C r ys"
  by (induction xs) auto

lemma re_sub_runs_id: "\<forall>c\<in>set xs. \<not> C c \<Longrightarrow> re_sub_runs C r xs = xs"
  using re_sub_runs_append[of xs C r "[]"] by simp

lemma ustr_output: "ustr ''output'' = [111, 117, 116, 112, 117, 116]"
  by (simp add: ustr_def)

text \<open>What holds of every result: its length, its characters and its first character.\<close>

lemma sanitize_length:
  "1 \<le> length (sanitize_filename x) \<and> length (sanitize_filename x) \<le> 120"
  by (auto simp: sanitize_filename_def Let_def ustr_def Suc_le_eq)

lemma sanitize_no_forbidden: "c \<in> set (sanitize_filename x) \<Longrightarrow> \<not> forbidden c"
proof -
  let ?n1 = "strip x"
  let ?n2 = "re_sub_runs forbidden (ustr ''-'') ?n1"
  let ?n3 = "strip (re_sub_runs is_space (ustr '' '') ?n2)"
  assume c: "c \<in> set (sanitize_filename x)"
  have n2: "\<forall>c\<in>set ?n2. \<not> forbidden c"
    using set_re_sub_runs[of forbidden "ustr ''-''" ?n1] by (auto simp: ustr_def forbidden_def)
  have "set ?n3 \<subseteq> set (ustr '' '') \<union> set ?n2"
    using set_strip set_re_sub_runs[of is_space "ustr '' ''" ?n2] by blast
  then have n3: "\<forall>c\<in>set ?n3. \<not> forbidden c"
    using n2 by (auto simp: ustr_def forbidden_def)
  show ?thesis
  proof (cases "?n3 = []")
    case True
    then have "sanitize_filename x = ustr ''output''" by (simp add: sanitize_filename_def)
    with c show ?thesis by (auto simp: ustr_output forbidden_def)
  next
    case False
    then have "sanitize_filename x = take 120 ?n3" by (simp add: sanitize_filename_def)
    with c n3 show ?thesis by (auto dest: in_set_takeD)
  qed
qed

lemma sanitize_no_leading_space: "\<not> is_space (hd (sanitize_filename x))"
proof -
  let ?n3 = "strip (re_sub_runs is_space (ustr '' '')
                     (re_sub_runs forbidden (ustr ''-'') (strip x)))"
  show ?thesis
  proof (cases "?n3 = []")
    case True
    then have "sanitize_filename x = ustr ''output''" by (simp add: sanitize_filename_def)
    then show ?thesis by (simp add: ustr_output is_space_def)
  next
    case False
    then have "sanitize_filename x = take 120 ?n3" by (simp add: sanitize_filename_def)
    then show ?thesis using hd_strip[OF False] by simp
  qed
qed

text \<open>Collapsing the whitespace: the strings it returns, and the strings it leaves alone.\<close>

lemma single_spaced_Cons: "\<not> is_space c \<Longrightarrow> single_spaced s \<Longrightarrow> single_spaced (c # s)"
  by (cases s) auto

lemma single_spaced_tl: "single_spaced (c # s) \<Longrightarrow> single_spaced s"
  by (cases s) auto

lemma single_spaced_fix: "single_spaced s \<Longrightarrow> re_sub_runs is_space (ustr '' '') s = s"
  by (induction s rule: single_spaced.induct) (auto simp: ustr_def split: if_splits)

lemma single_spaced_re_sub_runs: "single_spaced (re_sub_runs is_space (ustr '' '') s)"
proof (induction is_space "ustr '' ''" s rule: re_sub_runs.induct)
  case 1
  then show ?case by simp
next
  case (2 c cs)
  show ?case
  proof (cases "is_space c")
    case False
    with 2(2) show ?thesis by (simp add: single_spaced_Cons)
  next
    case True
    let ?t = "dropWhile is_space cs"
    have r: "re_sub_runs is_space (ustr '' '') (c # cs)
               = ustr '' '' @ re_sub_runs is_space (ustr '' '') ?t"
      using True by simp
    have ih: "single_spaced (re_sub_runs is_space (ustr '' '') ?t)" using 2(1) True by simp
    show ?thesis
    proof (cases ?t)
      case Nil
      have "re_sub_runs is_space (ustr '' '') (c # cs)
              = ustr '' '' @ re_sub_runs is_space (ustr '' '') []"
        using r by (simp only: Nil)
      then have "re_sub_runs is_space (ustr '' '') (c # cs) = ustr '' ''"
        by (simp only: re_sub_runs.simps append_Nil2)
      then show ?thesis by (simp only:) (simp add: ustr_def)
    next
      case (Cons d t')
      then have d: "\<not> is_space d" using hd_dropWhile[of is_space cs] by auto
      have "re_sub_runs is_space (ustr '' '') ?t = d # re_sub_runs is_space (ustr '' '') t'"
        using d by (simp only: Cons re_sub_runs.simps if_False)
      with ih d show ?thesis by (simp only: r) (simp add: ustr_def)
    qed
  qed
qed

lemma single_spaced_drop: "single_spaced s \<Longrightarrow> single_spaced (drop n s)"
proof (induction n arbitrary: s)
  case 0
  then show ?case by simp
next
  case (Suc n)
  show ?case
  proof (cases s)
    case Nil
    then show ?thesis by simp
  next
    case (Cons c t)
    with Suc.prems have "single_spaced t" by (auto dest: single_spaced_tl)
    with Suc.IH Cons show ?thesis by simp
  qed
qed

lemma single_spaced_take: "single_spaced s \<Longrightarrow> single_spaced (take n s)"
proof (induction s arbitrary: n rule: single_spaced.induct)
  case 1
  then show ?case by simp
next
  case (2 c)
  then show ?case by (cases n) auto
next
  case (3 c d s)
  show ?case
  proof (cases n)
    case 0
    then show ?thesis by simp
  next
    case (Suc k)
    from 3 have ih: "single_spaced (take k (d # s))" by simp
    show ?thesis
    proof (cases k)
      case 0
      with Suc 3(2) show ?thesis by (auto split: if_splits)
    next
      case (Suc j)
      with ih 3(2) \<open>n = Suc k\<close> show ?thesis by (auto split: if_splits)
    qed
  qed
qed

lemma strip_take_drop: "\<exists>m k. strip s = take m (drop k s)"
proof -
  let ?t = "dropWhile is_space s"
  have 1: "?t = drop (length (takeWhile is_space s)) s" by (rule dropWhile_eq_drop)
  have "dropWhile is_space (rev ?t) = drop (length (takeWhile is_space (rev ?t))) (rev ?t)"
    by (rule dropWhile_eq_drop)
  then have "strip s = rev (drop (length (takeWhile is_space (rev ?t))) (rev ?t))"
    by (simp only: strip_def)
  also have "\<dots> = take (length ?t - length (takeWhile is_space (rev ?t))) ?t"
    by (simp add: rev_drop)
  finally show ?thesis using 1 by metis
qed

lemma single_spaced_strip:
  assumes "single_spaced s"
  shows "single_spaced (strip s)"
proof -
  obtain m k where "strip s = take m (drop k s)" using strip_take_drop by blast
  then show ?thesis using assms by (simp add: single_spaced_take single_spaced_drop)
qed

lemma sanitize_output: "sanitize_filename (ustr ''output'') = ustr ''output''"
  by (simp add: sanitize_filename_def strip_def ustr_def is_space_def forbidden_def)

text \<open>
  A result shorter than 120 characters was not cut, and has no whitespace at its end; and
  on a result with no whitespace at its end the sanitizer changes nothing.
\<close>

lemma sanitize_short_no_trailing_space:
  assumes "length (sanitize_filename x) < 120"
  shows "\<not> is_space (last (sanitize_filename x))"
proof -
  let ?n3 = "strip (re_sub_runs is_space (ustr '' '')
                     (re_sub_runs forbidden (ustr ''-'') (strip x)))"
  show ?thesis
  proof (cases "?n3 = []")
    case True
    then have "sanitize_filename x = ustr ''output''" by (simp add: sanitize_filename_def)
    then show ?thesis by (simp add: ustr_output is_space_def)
  next
    case False
    then have eq: "sanitize_filename x = take 120 ?n3" by (simp add: sanitize_filename_def)
    with assms have "length ?n3 < 120" by simp
    then have "sanitize_filename x = ?n3" using eq by simp
    then show ?thesis using last_strip[OF False] by simp
  qed
qed

lemma sanitize_idempotent_if:
  assumes "\<not> is_space (last (sanitize_filename x))"
  shows "sanitize_filename (sanitize_filename x) = sanitize_filename x"
proof -
  let ?y = "sanitize_filename x"
  let ?n3 = "strip (re_sub_runs is_space (ustr '' '')
                     (re_sub_runs forbidden (ustr ''-'') (strip x)))"
  show ?thesis
  proof (cases "?n3 = []")
    case True
    then have "?y = ustr ''output''" by (simp add: sanitize_filename_def)
    then show ?thesis by (simp add: sanitize_output)
  next
    case False
    then have eq: "?y = take 120 ?n3" by (simp add: sanitize_filename_def)
    have ne: "?y \<noteq> []" using sanitize_length[of x] by auto
    have 1: "strip ?y = ?y"
      using ne sanitize_no_leading_space assms by (rule strip_id)
    have 2: "re_sub_runs forbidden (ustr ''-'') ?y = ?y"
      by (rule re_sub_runs_id) (auto dest: sanitize_no_forbidden)
    have "single_spaced ?n3"
      by (rule single_spaced_strip) (rule single_spaced_re_sub_runs)
    then have "single_spaced ?y" unfolding eq by (rule single_spaced_take)
    then have 3: "re_sub_runs is_space (ustr '' '') ?y = ?y" by (rule single_spaced_fix)
    have "sanitize_filename ?y = take 120 ?y"
      using ne by (simp add: sanitize_filename_def[of ?y] 1 2 3)
    also have "\<dots> = ?y" using sanitize_length[of x] by simp
    finally show ?thesis .
  qed
qed

text \<open>The long label: nothing is stripped or replaced, and the cut at 120 ends on the space.\<close>

lemma sanitize_long_label: "sanitize_filename long_label = replicate 119 97 @ ustr '' ''"
proof -
  have s1: "strip long_label = long_label"
    by (rule strip_id) (simp_all add: long_label_def ustr_def is_space_def hd_append)
  have s2: "re_sub_runs forbidden (ustr ''-'') long_label = long_label"
    by (rule re_sub_runs_id) (auto simp: long_label_def ustr_def forbidden_def)
  have s3: "re_sub_runs is_space (ustr '' '') long_label = long_label"
    unfolding long_label_def
    by (subst re_sub_runs_append) (auto simp: ustr_def is_space_def)
  show ?thesis
    by (simp add: sanitize_filename_def s1 s2 s3) (simp add: long_label_def ustr_def)
qed

lemma sanitize_long_label_again:
  "sanitize_filename (replicate 119 97 @ ustr '' '') = replicate 119 97"
proof -
  have a: "strip (replicate 119 97 @ ustr '' '') = replicate 119 97"
    by (simp add: strip_def ustr_def is_space_def)
  have b: "re_sub_runs forbidden (ustr ''-'') (replicate 119 97) = replicate 119 97"
    by (rule re_sub_runs_id) (auto simp: forbidden_def)
  have c: "re_sub_runs is_space (ustr '' '') (replicate 119 97) = replicate 119 97"
    by (rule re_sub_runs_id) (auto simp: is_space_def)
  have d: "strip (replicate 119 97) = replicate 119 97"
    by (rule strip_id) (simp_all add: is_space_def)
  show ?thesis
    by (simp add: sanitize_filename_def a b c d)
qed

text \<open>
  C2. The sanitizer is to return, for every string, 1 to 120 characters, none of them
  forbidden, with no whitespace at either end. For the long label the result is 120
  characters long and its last character is the space: the cut to 120 characters comes after
  the last strip.
\<close>

theorem sanitize_filename_trailing_space:
  "length (sanitize_filename long_label) = 120 \<and>
   last (sanitize_filename long_label) = 32 \<and>
   is_space (last (sanitize_filename long_label))"
  by (simp add: sanitize_long_label ustr_def is_space_def)

text \<open>
  C3. The sanitizer is to be idempotent. Sanitizing the long label gives 119 letters and a
  space; sanitizing that result strips the space, so the second result differs from the first.
\<close>

theorem sanitize_filename_not_idempotent:
  "sanitize_filename (sanitize_filename long_label) \<noteq> sanitize_filename long_label"
proof -
  have "length (sanitize_filename (sanitize_filename long_label)) = 119"
    by (simp add: sanitize_long_label sanitize_long_label_again)
  moreover have "length (sanitize_filename long_label) = 120"
    by (simp add: sanitize_long_label ustr_def)
  ultimately show ?thesis by auto
qed

section \<open>Properties of the background page\<close>

text \<open>
  C10. For every top text the list of wrapped lines is not empty. For the empty text the
  list of paragraphs is replaced by the single empty paragraph, which is given to the line
  breaker as one space, and an empty answer of the line breaker is replaced by one empty
  line: the wrapped lines are what the line breaker returns for a single space, or else the
  one empty line; when the line breaker returns no line for a space, as reportlab's does,
  this is exactly one empty line.
\<close>

theorem wrapped_lines_nonempty:
  "wrapped_lines e top_text \<noteq> [] \<and>
   wrapped_lines e [] =
     (let lines = simpleSplit e (ustr '' '') (fst TOP_TEXT_FONT) (real (snd TOP_TEXT_FONT))
                    (fl e (PAGE_W e - 2 * MARGIN))
      in if lines \<noteq> [] then lines else [[]]) \<and>
   (simpleSplit e (ustr '' '') (fst TOP_TEXT_FONT) (real (snd TOP_TEXT_FONT))
      (fl e (PAGE_W e - 2 * MARGIN)) = [] \<longrightarrow> wrapped_lines e [] = [[]])"
proof -
  let ?ps = "if splitlines top_text \<noteq> [] then splitlines top_text else [[]]"
  have ps: "?ps \<noteq> []" by simp
  then obtain p ps' where eq: "?ps = p # ps'" by (cases ?ps) auto
  have 1: "wrapped_lines e top_text \<noteq> []"
    unfolding wrapped_lines_def Let_def eq by simp
  have 2: "splitlines [] = []" by (simp add: splitlines_def)
  show ?thesis using 1 by (simp add: wrapped_lines_def 2 Let_def)
qed

theorem wrapped_lines_nonempty_witness:
  "simpleSplit exact_env (ustr '' '') (fst TOP_TEXT_FONT) (real (snd TOP_TEXT_FONT))
      (fl exact_env (PAGE_W exact_env - 2 * MARGIN)) = [] \<and>
   wrapped_lines exact_env [] = [[]] \<and>
   wrapped_lines exact_env (ustr ''Lot 42'') \<noteq> []"
  using wrapped_lines_nonempty [of exact_env "ustr ''Lot 42''"]
  by (simp add: exact_env_def one_line_def strip_def ustr_def is_space_def)

text \<open>The drawing loop, for any rounding \<open>f\<close>, line height and start.\<close>

lemma draw_lines_length: "length (draw_lines f lh y ls) \<le> length ls"
  by (induction ls arbitrary: y) (auto simp: le_SucI)

lemma funpow_step_swap:
  "((\<lambda>y. f (y - lh)) ^^ j) (f (y - lh)) = f (((\<lambda>y. f (y - lh)) ^^ j) y - (lh::real))"
  using funpow_swap1[of "\<lambda>y. f (y - lh)" j y] by simp

lemma draw_lines_nth:
  "i < length (draw_lines f lh y ls) \<Longrightarrow>
   draw_lines f lh y ls ! i
     = DrawString TOP_TEXT_FONT MARGIN (((\<lambda>y. f (y - lh)) ^^ Suc i) y) (ls ! i) \<and>
   MARGIN \<le> ((\<lambda>y. f (y - lh)) ^^ Suc i) y"
proof (induction ls arbitrary: y i)
  case Nil
  then show ?case by simp
next
  case (Cons l ls)
  let ?g = "\<lambda>y. f (y - lh)"
  from Cons.prems have go: "\<not> ?g y < MARGIN" by (auto split: if_splits)
  show ?case
  proof (cases i)
    case 0
    with go show ?thesis by simp
  next
    case (Suc j)
    with Cons.prems go have "j < length (draw_lines f lh (?g y) ls)" by simp
    from Cons.IH[OF this] Suc go show ?thesis by (simp add: funpow_step_swap)
  qed
qed

lemma draw_lines_stop:
  "length (draw_lines f lh y ls) < length ls \<Longrightarrow>
   ((\<lambda>y. f (y - lh)) ^^ Suc (length (draw_lines f lh y ls))) y < MARGIN"
proof (induction ls arbitrary: y)
  case Nil
  then show ?case by simp
next
  case (Cons l ls)
  show ?case
  proof (cases "f (y - lh) < MARGIN")
    case True
    then show ?thesis by simp
  next
    case False
    with Cons.prems have "length (draw_lines f lh (f (y - lh)) ls) < length ls" by simp
    from Cons.IH[OF this] False show ?thesis by (simp add: funpow_step_swap)
  qed
qed

lemma y_text_after_exact:
  "fl e = (\<lambda>t. t) \<Longrightarrow> y_text_after e n = PAGE_H e - MARGIN - real n * (10 * (13 / 10))"
  by (induction n) (simp_all add: y_text_after_def line_height_def TOP_TEXT_FONT_def algebra_simps)

lemma draw_lines_map:
  "draw_lines f lh y ls
     = map (\<lambda>i. DrawString TOP_TEXT_FONT MARGIN (((\<lambda>y. f (y - lh)) ^^ Suc i) y) (ls ! i))
         [0..<length (draw_lines f lh y ls)]"
  by (rule nth_equalityI) (simp_all add: draw_lines_nth del: funpow.simps)

lemma set_simpleSplit_wrapped:
  assumes "par \<in> set (splitlines top_text)"
  shows "set (simpleSplit e (if par \<noteq> [] then par else ustr '' '') (fst TOP_TEXT_FONT)
                (real (snd TOP_TEXT_FONT)) (fl e (PAGE_W e - 2 * MARGIN)))
           \<subseteq> set (wrapped_lines e top_text)"
proof -
  from assms have ne: "splitlines top_text \<noteq> []" by auto
  show ?thesis
    unfolding wrapped_lines_def Let_def using assms ne
    by (auto intro!: bexI[of _ par])
qed

lemma wrapped_lines_not_Nil: "wrapped_lines e top_text \<noteq> []"
proof -
  let ?ps = "if splitlines top_text \<noteq> [] then splitlines top_text else [[]]"
  have "?ps \<noteq> []" by simp
  then obtain p ps' where eq: "?ps = p # ps'" by (cases ?ps) auto
  show ?thesis unfolding wrapped_lines_def Let_def eq by simp
qed

text \<open>
  C6, as the code has it. On the page that \<open>draw_base_a4_with_text_and_label\<close> returns, the operations before
  the label are the first \<open>k\<close> wrapped lines of the top text, in their order, each drawn at
  the left margin; the wrapped lines are not empty and contain every line that the line
  breaker returns for a paragraph of the text. The cursor \<open>y_text\<close> starts at the page
  height minus the margin, and each line, the first one too, steps it down by the line
  height, font size times 1.3, and is drawn with its baseline at the new value: line \<open>i\<close>
  (from 0) at the value after \<open>i + 1\<close> steps, in exact arithmetic the page height minus the
  margin minus \<open>(i + 1)\<close> times 13. Every line that is drawn has its baseline at the margin
  or above; when not all lines are drawn (\<open>k\<close> below their number), the next one would lie
  below the margin, and the lines from there on are dropped: nothing else is drawn for
  them and no error is raised.
\<close>

theorem top_text_layout:
  "(case draw_base_a4_with_text_and_label e top_text label w h of
      (p, origin) \<Rightarrow>
        wrapped_lines e top_text \<noteq> [] \<and>
        (\<forall>par\<in>set (splitlines top_text).
           set (simpleSplit e (if par \<noteq> [] then par else ustr '' '') (fst TOP_TEXT_FONT)
                  (real (snd TOP_TEXT_FONT)) (fl e (PAGE_W e - 2 * MARGIN)))
             \<subseteq> set (wrapped_lines e top_text)) \<and>
        (\<exists>k. k \<le> length (wrapped_lines e top_text) \<and>
           stream p =
             Some (map (\<lambda>i. DrawString TOP_TEXT_FONT MARGIN (y_text_after e (Suc i))
                              (wrapped_lines e top_text ! i)) [0..<k]
                   @ [DrawCentredString LABEL_FONT (fl e (PAGE_W e / 2))
                        (fl e (snd origin - GAP_BARCODE_LABEL)) label]) \<and>
           (\<forall>i<k. MARGIN \<le> y_text_after e (Suc i)) \<and>
           (k < length (wrapped_lines e top_text) \<longrightarrow> y_text_after e (Suc k) < MARGIN)) \<and>
        y_text_after e 0 = fl e (PAGE_H e - MARGIN) \<and>
        (\<forall>n. y_text_after e (Suc n) = fl e (y_text_after e n - line_height e)) \<and>
        line_height e = fl e (real (snd TOP_TEXT_FONT) * fl e (13 / 10)) \<and>
        snd TOP_TEXT_FONT = 10 \<and>
        (fl e = (\<lambda>t. t) \<longrightarrow>
           (\<forall>n. y_text_after e n = PAGE_H e - MARGIN - real n * (10 * (13 / 10)))))"
proof -
  let ?L = "wrapped_lines e top_text"
  let ?D = "draw_lines (fl e) (line_height e) (fl e (PAGE_H e - MARGIN)) ?L"
  let ?k = "length ?D"
  have k: "?k \<le> length ?L" by (rule draw_lines_length)
  have m: "?D = map (\<lambda>i. DrawString TOP_TEXT_FONT MARGIN (y_text_after e (Suc i)) (?L ! i)) [0..<?k]"
    using draw_lines_map[of "fl e" "line_height e" "fl e (PAGE_H e - MARGIN)" ?L]
    by (simp add: y_text_after_def)
  have b: "\<forall>i<?k. MARGIN \<le> y_text_after e (Suc i)"
    using draw_lines_nth[of _ "fl e" "line_height e" "fl e (PAGE_H e - MARGIN)" ?L]
    by (simp add: y_text_after_def)
  have c: "?k < length ?L \<longrightarrow> y_text_after e (Suc ?k) < MARGIN"
    using draw_lines_stop[of "fl e" "line_height e" "fl e (PAGE_H e - MARGIN)" ?L]
    by (simp add: y_text_after_def)
  have ex: "\<exists>k. k \<le> length ?L \<and>
      ?D = map (\<lambda>i. DrawString TOP_TEXT_FONT MARGIN (y_text_after e (Suc i)) (?L ! i)) [0..<k] \<and>
      (\<forall>i<k. MARGIN \<le> y_text_after e (Suc i)) \<and>
      (k < length ?L \<longrightarrow> y_text_after e (Suc k) < MARGIN)"
    using k m b c by blast
  have d: "y_text_after e 0 = fl e (PAGE_H e - MARGIN)"
    by (simp add: y_text_after_def)
  have s: "\<forall>n. y_text_after e (Suc n) = fl e (y_text_after e n - line_height e)"
    by (simp add: y_text_after_def)
  have g: "line_height e = fl e (real (snd TOP_TEXT_FONT) * fl e (13 / 10))"
    by (simp add: line_height_def)
  have t: "snd TOP_TEXT_FONT = 10" by (simp add: TOP_TEXT_FONT_def)
  have f: "fl e = (\<lambda>t. t) \<longrightarrow>
      (\<forall>n. y_text_after e n = PAGE_H e - MARGIN - real n * (10 * (13 / 10)))"
    using y_text_after_exact[of e] by simp
  have i: "\<forall>par\<in>set (splitlines top_text).
           set (simpleSplit e (if par \<noteq> [] then par else ustr '' '') (fst TOP_TEXT_FONT)
                  (real (snd TOP_TEXT_FONT)) (fl e (PAGE_W e - 2 * MARGIN))) \<subseteq> set ?L"
    using set_simpleSplit_wrapped by blast
  from ex obtain k where kk: "k \<le> length ?L"
      "?D = map (\<lambda>i. DrawString TOP_TEXT_FONT MARGIN (y_text_after e (Suc i)) (?L ! i)) [0..<k]"
      "\<forall>i<k. MARGIN \<le> y_text_after e (Suc i)"
      "k < length ?L \<longrightarrow> y_text_after e (Suc k) < MARGIN"
    by blast
  have st: "\<exists>k. k \<le> length ?L \<and>
      Some (?D @ [DrawCentredString LABEL_FONT (fl e (PAGE_W e / 2))
             (fl e (fl e (fl e (PAGE_H e - h) / 2) - GAP_BARCODE_LABEL)) label]) =
      Some (map (\<lambda>i. DrawString TOP_TEXT_FONT MARGIN (y_text_after e (Suc i)) (?L ! i)) [0..<k]
            @ [DrawCentredString LABEL_FONT (fl e (PAGE_W e / 2))
                 (fl e (fl e (fl e (PAGE_H e - h) / 2) - GAP_BARCODE_LABEL)) label]) \<and>
      (\<forall>i<k. MARGIN \<le> y_text_after e (Suc i)) \<and>
      (k < length ?L \<longrightarrow> y_text_after e (Suc k) < MARGIN)"
    using kk by (intro exI[of _ k]) simp
  show ?thesis
    unfolding draw_base_a4_with_text_and_label_def Let_def draw_top_text_def
    using wrapped_lines_not_Nil[of e top_text] i st d s g t f
    by simp
qed

text \<open>
  A page 100 points high and a text of three lines: two of them are drawn, at 51 and 38,
  the third would lie at 25, below the margin of 36, and is dropped.
\<close>

lemma wrapped_three_lines:
  "wrapped_lines short_env three_lines = [ustr ''a'', ustr ''b'', ustr ''c'']"
  by (simp add: wrapped_lines_def three_lines_def splitlines_def is_linebreak_def ustr_def
        short_env_def exact_env_def one_line_def strip_def is_space_def TOP_TEXT_FONT_def)

theorem top_text_layout_witness:
  "(case draw_base_a4_with_text_and_label short_env three_lines (ustr ''L'') 360 20 of
      (p, origin) \<Rightarrow>
        stream p = Some [DrawString TOP_TEXT_FONT MARGIN 51 (ustr ''a''),
                         DrawString TOP_TEXT_FONT MARGIN 38 (ustr ''b''),
                         DrawCentredString LABEL_FONT (PAGE_W short_env / 2) 26 (ustr ''L'')]) \<and>
   wrapped_lines short_env three_lines = [ustr ''a'', ustr ''b'', ustr ''c''] \<and>
   fl short_env = (\<lambda>t. t) \<and>
   y_text_after short_env 3 = 25 \<and> y_text_after short_env 3 < MARGIN"
proof -
  have f: "fl short_env = (\<lambda>t. t)" "PAGE_H short_env = 100"
    by (simp_all add: short_env_def exact_env_def)
  have y: "y_text_after short_env 3 = 25"
    by (simp add: y_text_after_def line_height_def f TOP_TEXT_FONT_def MARGIN_def
          eval_nat_numeral)
  show ?thesis
    using top_text_layout [where e = short_env and top_text = three_lines
        and label = "ustr ''L''" and w = 360 and h = 20]
    by (simp add: y f wrapped_three_lines draw_base_a4_with_text_and_label_def
          draw_top_text_def line_height_def TOP_TEXT_FONT_def MARGIN_def
          GAP_BARCODE_LABEL_def)
qed

text \<open>In binary64 the line height, 10 times the float nearest to 1.3, is exactly 13.\<close>

lemma line_height_binary64: "line_height float_env = 13"
  by (simp add: line_height_def float_env_def exact_env_def TOP_TEXT_FONT_def
        binary64_def ilog2_def bitlen.simps round_half_even_def Let_def)

lemma first_baseline_binary64:
  "fl float_env (PAGE_H float_env - MARGIN) = PAGE_H float_env - MARGIN"
  "fl float_env (PAGE_H float_env - MARGIN - 13) = PAGE_H float_env - MARGIN - 13"
  by (simp_all add: float_env_def exact_env_def MARGIN_def
        binary64_def ilog2_def bitlen.simps round_half_even_def Let_def)

lemma wrapped_one_line: "wrapped_lines float_env (ustr ''a'') = [ustr ''a'']"
  by (simp add: wrapped_lines_def splitlines_def is_linebreak_def ustr_def
        float_env_def exact_env_def one_line_def strip_def is_space_def TOP_TEXT_FONT_def)

text \<open>
  C6, as stated: the lines are drawn starting at the page height minus the margin. On an
  A4 page, in binary64, the one line of the text \<open>a\<close> is drawn with its baseline at the page
  height minus the margin minus 13, at 792.8897637795277 and not at 805.8897637795277: the
  first line is one line height below the start of the cursor.
\<close>

theorem first_baseline_counterexample:
  "(case draw_base_a4_with_text_and_label float_env (ustr ''a'') (ustr ''L'') 360 180 of
      (p, origin) \<Rightarrow>
        stream p = Some [DrawString TOP_TEXT_FONT MARGIN (PAGE_H float_env - MARGIN - 13) (ustr ''a''),
                         DrawCentredString LABEL_FONT (fl float_env (PAGE_W float_env / 2))
                           (fl float_env (snd origin - GAP_BARCODE_LABEL)) (ustr ''L'')]) \<and>
   PAGE_H float_env - MARGIN - 13 = 6974332118561253 / 8796093022208 \<and>
   PAGE_H float_env - MARGIN = 7088681327849957 / 8796093022208 \<and>
   PAGE_H float_env - MARGIN - 13 \<noteq> PAGE_H float_env - MARGIN"
proof -
  have m: "MARGIN \<le> PAGE_H float_env - MARGIN - 13"
    by (simp add: float_env_def exact_env_def MARGIN_def)
  have v: "PAGE_H float_env - MARGIN - 13 = 6974332118561253 / 8796093022208"
    "PAGE_H float_env - MARGIN = 7088681327849957 / 8796093022208"
    by (simp_all add: float_env_def exact_env_def MARGIN_def)
  have d: "draw_top_text float_env [ustr ''a'']
             = [DrawString TOP_TEXT_FONT MARGIN (PAGE_H float_env - MARGIN - 13) (ustr ''a'')]"
    using m by (simp add: draw_top_text_def line_height_binary64 first_baseline_binary64)
  have c: "(case draw_base_a4_with_text_and_label float_env (ustr ''a'') (ustr ''L'') 360 180 of
      (p, origin) \<Rightarrow>
        stream p = Some [DrawString TOP_TEXT_FONT MARGIN (PAGE_H float_env - MARGIN - 13) (ustr ''a''),
                         DrawCentredString LABEL_FONT (fl float_env (PAGE_W float_env / 2))
                           (fl float_env (snd origin - GAP_BARCODE_LABEL)) (ustr ''L'')])"
    by (simp add: draw_base_a4_with_text_and_label_def Let_def wrapped_one_line d)
  have n: "PAGE_H float_env - MARGIN - 13 \<noteq> PAGE_H float_env - MARGIN" by simp
  from c v n show ?thesis by (intro conjI)
qed

section \<open>Properties of the layout\<close>

text \<open>
  C9. The function returns the origin \<open>(x, y)\<close> of the placed barcode, and the last operation
  on the page it draws is the label, in the label font, centred at the horizontal position
  page width / 2 and at the height \<open>y - GAP_BARCODE_LABEL\<close>: the origin of the barcode
  lowered by the gap.
\<close>

theorem label_position:
  "(case draw_base_a4_with_text_and_label e top_text label w h of
      (p, (x, y)) \<Rightarrow>
        x = fl e (fl e (PAGE_W e - w) / 2) \<and>
        y = fl e (fl e (PAGE_H e - h) / 2) \<and>
        stream p = Some (draw_top_text e (wrapped_lines e top_text)
                         @ [DrawCentredString LABEL_FONT (fl e (PAGE_W e / 2))
                              (fl e (y - GAP_BARCODE_LABEL)) label]))"
  by (simp add: draw_base_a4_with_text_and_label_def Let_def)

theorem label_position_witness:
  "(case draw_base_a4_with_text_and_label exact_env (ustr ''Lot 42'') (ustr ''Lot 42'') 360 180 of
      (p, (x, y)) \<Rightarrow>
        y = PAGE_H exact_env / 2 - 90 \<and>
        stream p = Some (draw_top_text exact_env (wrapped_lines exact_env (ustr ''Lot 42''))
                         @ [DrawCentredString LABEL_FONT (PAGE_W exact_env / 2)
                              (PAGE_H exact_env / 2 - 90 - 14) (ustr ''Lot 42'')]))"
proof -
  have f: "fl exact_env = (\<lambda>t. t)" by (simp add: exact_env_def)
  show ?thesis
    using label_position [where e = exact_env and top_text = "ustr ''Lot 42''"
        and label = "ustr ''Lot 42''" and w = 360 and h = 180]
    by (simp add: f GAP_BARCODE_LABEL_def field_simps split: prod.splits)
qed

text \<open>Two roundings of relative error at most \<open>u\<close> in a row.\<close>

lemma abs_sum_le:
  fixes A B a b :: real
  shows "\<bar>A\<bar> \<le> a \<Longrightarrow> \<bar>B\<bar> \<le> b \<Longrightarrow> \<bar>A + B\<bar> \<le> a + b"
  by linarith

lemma abs_grow:
  fixes A t u :: real
  shows "\<bar>A - t\<bar> \<le> u * \<bar>t\<bar> \<Longrightarrow> \<bar>A\<bar> \<le> (1 + u) * \<bar>t\<bar>"
  by (auto simp: algebra_simps)

lemma half_bound:
  assumes 1: "rel_err u f (P - w)" and 2: "rel_err u f (f (P - w) / 2)" and u: "0 \<le> u"
  shows "\<bar>f (f (P - w) / 2) + w / 2 - P / 2\<bar> \<le> u * (2 + u) / 2 * \<bar>P - w\<bar>"
proof -
  let ?a = "f (P - w)"
  let ?x = "f (?a / 2)"
  have a: "\<bar>?a - (P - w)\<bar> \<le> u * \<bar>P - w\<bar>" using 1 by (simp add: rel_err_def)
  then have a2: "\<bar>(?a - (P - w)) / 2\<bar> \<le> u * \<bar>P - w\<bar> / 2" by simp
  have a': "\<bar>?a\<bar> \<le> (1 + u) * \<bar>P - w\<bar>" by (rule abs_grow[OF a])
  have x: "\<bar>?x - ?a / 2\<bar> \<le> u * \<bar>?a\<bar> / 2" using 2 by (simp add: rel_err_def)
  have "u * \<bar>?a\<bar> \<le> u * ((1 + u) * \<bar>P - w\<bar>)" using a' u by (rule mult_left_mono)
  with x have x': "\<bar>?x - ?a / 2\<bar> \<le> u * (1 + u) * \<bar>P - w\<bar> / 2" by simp
  have e: "?x + w / 2 - P / 2 = (?x - ?a / 2) + (?a - (P - w)) / 2" by (simp add: field_simps)
  have "\<bar>(?x - ?a / 2) + (?a - (P - w)) / 2\<bar> \<le> u * (1 + u) * \<bar>P - w\<bar> / 2 + u * \<bar>P - w\<bar> / 2"
    by (rule abs_sum_le[OF x' a2])
  also have "\<dots> = u * (2 + u) / 2 * \<bar>P - w\<bar>" by (simp add: algebra_simps)
  finally show ?thesis by (simp only: e)
qed

text \<open>
  C5. The placed barcode is centred on both axes up to the rounding of the two operations
  that compute each coordinate of its origin: when each of them has a relative error of at
  most \<open>u\<close>, the origin plus half the placed size differs from half the page size by at
  most \<open>u (2 + u) / 2\<close> times the distance between page size and placed size. In exact
  arithmetic (\<open>u = 0\<close>) the two are equal. This holds for every placed size, so for the one
  computed from any positive source size.
\<close>

theorem barcode_centred:
  assumes "0 \<le> u"
    and "rel_err u (fl e) (PAGE_W e - w)" and "rel_err u (fl e) (fl e (PAGE_W e - w) / 2)"
    and "rel_err u (fl e) (PAGE_H e - h)" and "rel_err u (fl e) (fl e (PAGE_H e - h) / 2)"
  shows "(case draw_base_a4_with_text_and_label e top_text label w h of
      (p, (x, y)) \<Rightarrow>
        \<bar>x + w / 2 - PAGE_W e / 2\<bar> \<le> u * (2 + u) / 2 * \<bar>PAGE_W e - w\<bar> \<and>
        \<bar>y + h / 2 - PAGE_H e / 2\<bar> \<le> u * (2 + u) / 2 * \<bar>PAGE_H e - h\<bar>)"
  using half_bound[OF assms(2,3,1)] half_bound[OF assms(4,5,1)]
  by (simp add: draw_base_a4_with_text_and_label_def Let_def)

theorem barcode_centred_witness:
  "rel_err 0 (fl exact_env) (PAGE_W exact_env - 360) \<and>
   rel_err 0 (fl exact_env) (fl exact_env (PAGE_W exact_env - 360) / 2) \<and>
   rel_err 0 (fl exact_env) (PAGE_H exact_env - 180) \<and>
   rel_err 0 (fl exact_env) (fl exact_env (PAGE_H exact_env - 180) / 2) \<and>
   (case draw_base_a4_with_text_and_label exact_env (ustr ''Lot 42'') (ustr ''Lot 42'') 360 180 of
      (p, (x, y)) \<Rightarrow> x + 360 / 2 = PAGE_W exact_env / 2 \<and> y + 180 / 2 = PAGE_H exact_env / 2)"
proof -
  have f: "fl exact_env = (\<lambda>t. t)" by (simp add: exact_env_def)
  show ?thesis
    using barcode_centred [of 0 exact_env 360 180 "ustr ''Lot 42''" "ustr ''Lot 42''"]
    by (simp add: rel_err_def f split: prod.splits)
qed

lemma placed_width_bound:
  assumes w: "bc_w \<noteq> 0" and u: "0 \<le> u"
    and 1: "rel_err u f (T / bc_w)" and 2: "rel_err u f (bc_w * f (T / bc_w))"
  shows "\<bar>f (bc_w * f (T / bc_w)) - T\<bar> \<le> u * (2 + u) * \<bar>T\<bar>"
proof -
  let ?s = "f (T / bc_w)"
  let ?p = "f (bc_w * ?s)"
  have s: "\<bar>?s - T / bc_w\<bar> \<le> u * \<bar>T / bc_w\<bar>" using 1 by (simp add: rel_err_def)
  have "\<bar>bc_w * ?s - T\<bar> = \<bar>bc_w\<bar> * \<bar>?s - T / bc_w\<bar>"
    using w by (simp add: abs_mult[symmetric] algebra_simps)
  also have "\<dots> \<le> \<bar>bc_w\<bar> * (u * \<bar>T / bc_w\<bar>)" by (rule mult_left_mono[OF s]) simp
  also have "\<dots> = u * \<bar>T\<bar>" using w by (simp add: abs_divide)
  finally have ws: "\<bar>bc_w * ?s - T\<bar> \<le> u * \<bar>T\<bar>" .
  have ws': "\<bar>bc_w * ?s\<bar> \<le> (1 + u) * \<bar>T\<bar>" by (rule abs_grow[OF ws])
  have p: "\<bar>?p - bc_w * ?s\<bar> \<le> u * \<bar>bc_w * ?s\<bar>" using 2 by (simp add: rel_err_def)
  have "u * \<bar>bc_w * ?s\<bar> \<le> u * ((1 + u) * \<bar>T\<bar>)" using ws' u by (rule mult_left_mono)
  with p have p': "\<bar>?p - bc_w * ?s\<bar> \<le> u * (1 + u) * \<bar>T\<bar>" by (simp add: algebra_simps)
  have e: "?p - T = (?p - bc_w * ?s) + (bc_w * ?s - T)" by simp
  have "\<bar>(?p - bc_w * ?s) + (bc_w * ?s - T)\<bar> \<le> u * (1 + u) * \<bar>T\<bar> + u * \<bar>T\<bar>"
    by (rule abs_sum_le[OF p' ws])
  also have "\<dots> = u * (2 + u) * \<bar>T\<bar>" by (simp add: algebra_simps)
  finally show ?thesis by (simp only: e)
qed

text \<open>
  C4, as the code has it. For a source page of non-zero width the placed width
  \<open>bc_w * scale\<close>, with \<open>scale = BARCODE_TARGET_W / bc_w\<close>, equals \<open>BARCODE_TARGET_W\<close> up to
  the rounding of the division and of the multiplication: when each has a relative error of
  at most \<open>u\<close>, the difference is at most \<open>u (2 + u)\<close> times \<open>BARCODE_TARGET_W\<close>, so the two
  are equal in exact arithmetic. The placed height is \<open>bc_h * scale\<close>.
\<close>

theorem placed_size:
  assumes "bc_w \<noteq> 0" and "0 \<le> u"
    and "rel_err u (fl e) (BARCODE_TARGET_W / bc_w)"
    and "rel_err u (fl e) (bc_w * scale e bc_w)"
  shows "\<bar>barcode_w_pt e bc_w - BARCODE_TARGET_W\<bar> \<le> u * (2 + u) * BARCODE_TARGET_W \<and>
         barcode_h_pt e bc_w bc_h = fl e (bc_h * scale e bc_w) \<and>
         scale e bc_w = fl e (BARCODE_TARGET_W / bc_w)"
  using placed_width_bound[of bc_w u "fl e" BARCODE_TARGET_W] assms
  by (simp add: barcode_w_pt_def barcode_h_pt_def scale_def BARCODE_TARGET_W_def)

text \<open>A source page 39 points wide, in binary64: the scale and the placed width.\<close>

lemma scale_39: "scale float_env 39 = 2598230554252209 / 281474976710656"
  by (simp add: scale_def float_env_def exact_env_def BARCODE_TARGET_W_def
        binary64_def ilog2_def bitlen.simps round_half_even_def Let_def)

lemma barcode_w_pt_39: "barcode_w_pt float_env 39 = 6333186975989759 / 17592186044416"
  by (simp add: barcode_w_pt_def scale_39)
     (simp add: float_env_def exact_env_def
        binary64_def ilog2_def bitlen.simps round_half_even_def Let_def)

theorem placed_size_witness:
  "(39::real) \<noteq> 0 \<and> (0::real) \<le> 1 / 2 ^ 53 \<and>
   rel_err (1 / 2 ^ 53) (fl float_env) (BARCODE_TARGET_W / 39) \<and>
   rel_err (1 / 2 ^ 53) (fl float_env) (39 * scale float_env 39) \<and>
   \<bar>barcode_w_pt float_env 39 - BARCODE_TARGET_W\<bar>
     \<le> 1 / 2 ^ 53 * (2 + 1 / 2 ^ 53) * BARCODE_TARGET_W"
proof -
  have 1: "rel_err (1 / 2 ^ 53) (fl float_env) (BARCODE_TARGET_W / 39)"
    using scale_39 by (simp add: rel_err_def scale_def BARCODE_TARGET_W_def)
  have 2: "rel_err (1 / 2 ^ 53) (fl float_env) (39 * scale float_env 39)"
    using barcode_w_pt_39 by (simp add: rel_err_def barcode_w_pt_def scale_39)
  show ?thesis
    using placed_size [of 39 "1 / 2 ^ 53" float_env 50] 1 2 by simp
qed

text \<open>
  C4, as stated: the placed width is exactly \<open>BARCODE_TARGET_W\<close>. For a source page 39
  points wide the interpreter computes 359.99999999999994.
\<close>

theorem placed_width_counterexample:
  "barcode_w_pt float_env 39 = 6333186975989759 / 17592186044416 \<and>
   barcode_w_pt float_env 39 \<noteq> BARCODE_TARGET_W"
  by (simp add: barcode_w_pt_39 BARCODE_TARGET_W_def)

section \<open>Properties of the compose operation\<close>

text \<open>Runs on the example file system.\<close>

lemma sanitize_lot42: "sanitize_filename (ustr ''Lot 42'') = ustr ''Lot 42''"
  by (simp add: sanitize_filename_def strip_def ustr_def is_space_def forbidden_def)

lemma sanitize_empty: "sanitize_filename [] = ustr ''output''"
  by (simp add: sanitize_filename_def strip_def)

lemma out_path_lot42: "out_path_of [ustr ''bc.pdf''] (ustr ''Lot 42'') None = [ustr ''Lot 42.pdf'']"
  by (simp add: out_path_of_def sanitize_lot42 parent_def) (simp add: ustr_def)

lemma compose_page_ok:
  "mediabox_width bc \<noteq> 0 \<Longrightarrow> stream bc = Some ops \<Longrightarrow> \<exists>p. compose_page e t bc l = Inr p"
  by (simp add: compose_page_def Let_def draw_base_a4_with_text_and_label_def
      merge_transformed_page_def)

lemma read_bc: "PdfReader exact_env [39, 50]
  = Some [\<lparr>mediabox_width = 39, mediabox_height = 50, stream = Some [Foreign 0]\<rparr>]"
  by (simp add: exact_env_def small_reader_def)

lemma files_full_disk:
  "files full_disk [ustr ''bc.pdf''] = Some [39, 50]"
  "files full_disk [ustr ''top.txt''] = Some (ustr ''Lot 42'')"
  "files full_disk [ustr ''Lot 42.pdf''] = None"
  "files full_disk [ustr ''output.pdf''] = None"
  "dirs full_disk = {[]}" "capacity full_disk = Some 2"
  by (simp_all add: full_disk_def ustr_def)

lemma read_full_disk:
  "read_file full_disk [ustr ''bc.pdf''] = Inr [39, 50]"
  "read_file full_disk [ustr ''top.txt''] = Inr (ustr ''Lot 42'')"
  by (simp_all add: read_file_def has_nul_def full_disk_def ustr_def)

lemma open_full_disk:
  "open_wb full_disk [ustr ''Lot 42.pdf''] = None"
  "open_wb full_disk [ustr ''output.pdf''] = None"
  by (simp_all add: open_wb_def has_nul_def parent_def name_bytes_def utf8_len_def
        full_disk_def ustr_def)

lemma run_full_disk:
  "\<exists>p. compose_final_pdf exact_env full_disk [ustr ''bc.pdf''] [ustr ''top.txt''] (ustr ''Lot 42'') None
     = write_file full_disk [ustr ''Lot 42.pdf''] (PdfWriter exact_env [p])"
proof -
  obtain p where p: "compose_page exact_env (decode exact_env (ustr ''Lot 42''))
      \<lparr>mediabox_width = 39, mediabox_height = 50, stream = Some [Foreign 0]\<rparr> (ustr ''Lot 42'') = Inr p"
    using compose_page_ok[of "\<lparr>mediabox_width = 39, mediabox_height = 50, stream = Some [Foreign 0]\<rparr>"] by fastforce
  show ?thesis
    by (rule exI[of _ p]) (simp add: compose_final_pdf_def read_full_disk read_bc p out_path_lot42)
qed

lemma files_open_disk:
  "files open_disk = files full_disk" "dirs open_disk = {[]}" "capacity open_disk = None"
  "read_file open_disk = read_file full_disk" "open_wb open_disk = open_wb full_disk"
  by (simp_all add: open_disk_def full_disk_def read_file_def open_wb_def fun_eq_iff)

lemma run_open_disk:
  "\<exists>p. compose_final_pdf exact_env open_disk [ustr ''bc.pdf''] [ustr ''top.txt''] (ustr ''Lot 42'') None
     = (open_disk\<lparr>files := (files open_disk)([ustr ''Lot 42.pdf''] \<mapsto> PdfWriter exact_env [p])\<rparr>,
        Inr [ustr ''Lot 42.pdf''])"
proof -
  obtain p where p: "compose_page exact_env (decode exact_env (ustr ''Lot 42''))
      \<lparr>mediabox_width = 39, mediabox_height = 50, stream = Some [Foreign 0]\<rparr> (ustr ''Lot 42'') = Inr p"
    using compose_page_ok[of "\<lparr>mediabox_width = 39, mediabox_height = 50, stream = Some [Foreign 0]\<rparr>"] by fastforce
  show ?thesis
    by (rule exI[of _ p])
       (simp add: compose_final_pdf_def files_open_disk read_full_disk open_full_disk read_bc p
          out_path_lot42 write_file_def)
qed

lemma merge_stream:
  "merge_transformed_page base page2 (s, tx, ty) = Inr p \<Longrightarrow>
   \<exists>ops ops2. stream base = Some ops \<and> stream page2 = Some ops2 \<and>
     stream p = Some (ops @ map (Transformed s tx ty) ops2)"
  by (auto simp: merge_transformed_page_def split: option.splits)

lemma compose_page_stream:
  assumes "compose_page e top_text bc_page label = Inr p"
  shows "\<exists>y rest. stream p = Some (draw_top_text e (wrapped_lines e top_text)
            @ [DrawCentredString LABEL_FONT (fl e (PAGE_W e / 2)) (fl e (y - GAP_BARCODE_LABEL)) label]
            @ rest)"
proof -
  let ?w = "barcode_w_pt e (mediabox_width bc_page)"
  let ?h = "barcode_h_pt e (mediabox_width bc_page) (mediabox_height bc_page)"
  obtain base x y where d: "draw_base_a4_with_text_and_label e top_text label ?w ?h = (base, (x, y))"
    by (metis prod.exhaust)
  from assms d have m: "merge_transformed_page base bc_page (scale e (mediabox_width bc_page), x, y) = Inr p"
    by (simp add: compose_page_def Let_def split: if_splits)
  from d have b: "stream base = Some (draw_top_text e (wrapped_lines e top_text)
            @ [DrawCentredString LABEL_FONT (fl e (PAGE_W e / 2)) (fl e (y - GAP_BARCODE_LABEL)) label])"
    by (auto simp: draw_base_a4_with_text_and_label_def Let_def)
  from merge_stream[OF m] b show ?thesis by auto
qed

lemma write_file_ok:
  "write_file w out data = (w', Inr q) \<Longrightarrow> q = out \<and> files w' out = Some data"
  by (auto simp: write_file_def split: if_splits option.splits)

lemma read_file_Inr: "read_file w p = Inr b \<Longrightarrow> files w p = Some b"
  by (auto simp: read_file_def split: if_splits option.splits)

text \<open>
  C8. When the compose operation succeeds, the page that is written has, as the first part
  of its content and in their order, the lines of the top text that were drawn on the
  background page and then the label; the operations of the transformed source page come
  after them. The merge erases nothing of the background.
\<close>

theorem compose_keeps_background:
  assumes "compose_final_pdf e w barcode_pdf_path txt_path label od = (w', Inr out)"
  shows "\<exists>txt p y rest.
           files w txt_path = Some txt \<and>
           out = out_path_of barcode_pdf_path label od \<and>
           files w' out = Some (PdfWriter e [p]) \<and>
           stream p = Some (draw_top_text e (wrapped_lines e (decode e txt))
             @ [DrawCentredString LABEL_FONT (fl e (PAGE_W e / 2)) (fl e (y - GAP_BARCODE_LABEL)) label]
             @ rest)"
proof -
  from assms obtain tb bc_page p where
    r: "read_file w txt_path = Inr tb" and
    c: "compose_page e (decode e tb) bc_page label = Inr p" and
    wr: "write_file w (out_path_of barcode_pdf_path label od) (PdfWriter e [p]) = (w', Inr out)"
    by (auto simp: compose_final_pdf_def split: option.splits list.splits sum.splits)
  from r have t: "files w txt_path = Some tb" by (rule read_file_Inr)
  from write_file_ok[OF wr] compose_page_stream[OF c] t show ?thesis by blast
qed

theorem compose_keeps_background_witness:
  "snd (compose_final_pdf exact_env open_disk [ustr ''bc.pdf''] [ustr ''top.txt''] (ustr ''Lot 42'') None)
     = Inr [ustr ''Lot 42.pdf''] \<and>
   (\<exists>p y rest.
      files (fst (compose_final_pdf exact_env open_disk [ustr ''bc.pdf''] [ustr ''top.txt'']
                    (ustr ''Lot 42'') None)) [ustr ''Lot 42.pdf''] = Some (PdfWriter exact_env [p]) \<and>
      stream p = Some (draw_top_text exact_env (wrapped_lines exact_env (ustr ''Lot 42''))
             @ [DrawCentredString LABEL_FONT (PAGE_W exact_env / 2) (y - GAP_BARCODE_LABEL) (ustr ''Lot 42'')]
             @ rest))"
proof -
  obtain p where run: "compose_final_pdf exact_env open_disk [ustr ''bc.pdf''] [ustr ''top.txt''] (ustr ''Lot 42'') None
     = (open_disk\<lparr>files := (files open_disk)([ustr ''Lot 42.pdf''] \<mapsto> PdfWriter exact_env [p])\<rparr>,
        Inr [ustr ''Lot 42.pdf''])"
    using run_open_disk by blast
  have f: "fl exact_env = (\<lambda>t. t)" "decode exact_env = (\<lambda>b. b)" by (simp_all add: exact_env_def)
  from compose_keeps_background[OF run] show ?thesis
    by (simp add: run files_open_disk files_full_disk f)
qed

lemma write_file_fail:
  "write_file w out data = (w', Inl err) \<Longrightarrow>
   w' = w \<or>
   (\<exists>n. open_wb w out = None \<and> capacity w = Some n \<and> n < length data \<and>
      err = OSError ENOSPC \<and>
      w' = w\<lparr>files := (files w)(out \<mapsto> take n data), capacity := Some 0\<rparr>)"
  by (auto simp: write_file_def split: if_splits option.splits)

lemma compose_failure_cases:
  assumes "compose_final_pdf e w barcode_pdf_path txt_path label od = (w', Inl err)"
  shows "w' = w \<or>
         (\<exists>tb pb bc_page rest p n.
            read_file w txt_path = Inr tb \<and>
            read_file w barcode_pdf_path = Inr pb \<and>
            PdfReader e pb = Some (bc_page # rest) \<and>
            compose_page e (decode e tb) bc_page label = Inr p \<and>
            open_wb w (out_path_of barcode_pdf_path label od) = None \<and>
            capacity w = Some n \<and> n < length (PdfWriter e [p]) \<and>
            err = OSError ENOSPC \<and>
            w' = w\<lparr>files := (files w)(out_path_of barcode_pdf_path label od
                                        \<mapsto> take n (PdfWriter e [p])),
                   capacity := Some 0\<rparr>)"
proof (cases "w' = w")
  case True
  then show ?thesis by simp
next
  case False
  with assms obtain tb pb bc_page rest p where
    1: "read_file w txt_path = Inr tb" and
    2: "read_file w barcode_pdf_path = Inr pb" and
    3: "PdfReader e pb = Some (bc_page # rest)" and
    4: "compose_page e (decode e tb) bc_page label = Inr p" and
    5: "write_file w (out_path_of barcode_pdf_path label od) (PdfWriter e [p]) = (w', Inl err)"
    by (auto simp: compose_final_pdf_def split: option.splits list.splits sum.splits)
  from write_file_fail[OF 5] False obtain n where
    "open_wb w (out_path_of barcode_pdf_path label od) = None" "capacity w = Some n"
    "n < length (PdfWriter e [p])" "err = OSError ENOSPC"
    "w' = w\<lparr>files := (files w)(out_path_of barcode_pdf_path label od
                                \<mapsto> take n (PdfWriter e [p])),
           capacity := Some 0\<rparr>"
    by blast
  with 1 2 3 4 show ?thesis by blast
qed

lemma compose_partial_write:
  assumes "read_file w txt_path = Inr tb" and "read_file w barcode_pdf_path = Inr pb"
    and "PdfReader e pb = Some (bc_page # rest)"
    and "compose_page e (decode e tb) bc_page label = Inr p"
    and "open_wb w (out_path_of barcode_pdf_path label od) = None"
    and "capacity w = Some n" and "n < length (PdfWriter e [p])"
  shows "compose_final_pdf e w barcode_pdf_path txt_path label od
           = (w\<lparr>files := (files w)(out_path_of barcode_pdf_path label od
                                       \<mapsto> take n (PdfWriter e [p])),
                  capacity := Some 0\<rparr>, Inl (OSError ENOSPC))"
  using assms by (simp add: compose_final_pdf_def write_file_def)

text \<open>
  C1, as the code has it. When the compose operation fails, the error is returned to the
  caller, and one of two things has happened. Either the file system is as it was, with no
  output file produced: this is so whenever a file cannot be read, the source document or
  its page is malformed, the source page has width zero, the merge fails, or \<open>open\<close> raises
  for the output path (no such directory, a directory in its place, a name too long, a
  refusal of the operating system). Or the text and the source were read, the page \<open>p\<close> was
  composed, \<open>open\<close> succeeded, and the device accepted only \<open>n\<close> bytes, fewer than the
  document has: then the file at the output path holds exactly the first \<open>n\<close> bytes of the
  document written from \<open>p\<close>, and nothing else has changed but the room on the device.
  And whenever the operation gets that far and the device has room for fewer bytes than
  the document, it does fail and leave those bytes.
\<close>

theorem compose_failure:
  "(compose_final_pdf e w barcode_pdf_path txt_path label od = (w', Inl err) \<longrightarrow>
      w' = w \<or>
      (\<exists>tb pb bc_page rest p n.
         read_file w txt_path = Inr tb \<and>
         read_file w barcode_pdf_path = Inr pb \<and>
         PdfReader e pb = Some (bc_page # rest) \<and>
         compose_page e (decode e tb) bc_page label = Inr p \<and>
         open_wb w (out_path_of barcode_pdf_path label od) = None \<and>
         capacity w = Some n \<and> n < length (PdfWriter e [p]) \<and>
         err = OSError ENOSPC \<and>
         w' = w\<lparr>files := (files w)(out_path_of barcode_pdf_path label od
                                     \<mapsto> take n (PdfWriter e [p])),
                capacity := Some 0\<rparr>)) \<and>
   (\<forall>tb pb bc_page rest p n.
      read_file w txt_path = Inr tb \<and>
      read_file w barcode_pdf_path = Inr pb \<and>
      PdfReader e pb = Some (bc_page # rest) \<and>
      compose_page e (decode e tb) bc_page label = Inr p \<and>
      open_wb w (out_path_of barcode_pdf_path label od) = None \<and>
      capacity w = Some n \<and> n < length (PdfWriter e [p]) \<longrightarrow>
      compose_final_pdf e w barcode_pdf_path txt_path label od
        = (w\<lparr>files := (files w)(out_path_of barcode_pdf_path label od
                                    \<mapsto> take n (PdfWriter e [p])),
               capacity := Some 0\<rparr>, Inl (OSError ENOSPC)))"
  using compose_failure_cases[of e w barcode_pdf_path txt_path label od w' err]
    compose_partial_write[of w txt_path _ barcode_pdf_path _ e _ _ label _ od]
  by blast

text \<open>
  A malformed source document: the run fails and the file system is as it was. The
  barcode document on the full device: the write stage is reached with room for two bytes
  of four, and the run fails with the two bytes at the output path.
\<close>

theorem compose_failure_witness:
  "compose_final_pdf exact_env full_disk [ustr ''top.txt''] [ustr ''top.txt''] (ustr ''Lot 42'') None
     = (full_disk, Inl PdfReadError) \<and>
   files full_disk [ustr ''Lot 42.pdf''] = None \<and>
   read_file full_disk [ustr ''top.txt''] = Inr (ustr ''Lot 42'') \<and>
   read_file full_disk [ustr ''bc.pdf''] = Inr [39, 50] \<and>
   open_wb full_disk (out_path_of [ustr ''bc.pdf''] (ustr ''Lot 42'') None) = None \<and>
   capacity full_disk = Some 2 \<and>
   (\<exists>p. compose_page exact_env (decode exact_env (ustr ''Lot 42''))
           \<lparr>mediabox_width = 39, mediabox_height = 50, stream = Some [Foreign 0]\<rparr>
           (ustr ''Lot 42'') = Inr p \<and>
        2 < length (PdfWriter exact_env [p]) \<and>
        compose_final_pdf exact_env full_disk [ustr ''bc.pdf''] [ustr ''top.txt''] (ustr ''Lot 42'') None
          = (full_disk\<lparr>files := (files full_disk)([ustr ''Lot 42.pdf'']
                                        \<mapsto> take 2 (PdfWriter exact_env [p])),
                       capacity := Some 0\<rparr>, Inl (OSError ENOSPC)))"
proof -
  have r: "PdfReader exact_env (ustr ''Lot 42'') = None"
    by (simp add: exact_env_def small_reader_def ustr_def)
  have run: "compose_final_pdf exact_env full_disk [ustr ''top.txt''] [ustr ''top.txt''] (ustr ''Lot 42'') None
     = (full_disk, Inl PdfReadError)"
    by (simp add: compose_final_pdf_def read_full_disk r)
  obtain p where p: "compose_page exact_env (decode exact_env (ustr ''Lot 42''))
      \<lparr>mediabox_width = 39, mediabox_height = 50, stream = Some [Foreign 0]\<rparr> (ustr ''Lot 42'') = Inr p"
    using compose_page_ok[of "\<lparr>mediabox_width = 39, mediabox_height = 50, stream = Some [Foreign 0]\<rparr>"] by fastforce
  have l: "2 < length (PdfWriter exact_env [p])"
    by (simp add: exact_env_def small_writer_def ustr_def)
  have o: "open_wb full_disk (out_path_of [ustr ''bc.pdf''] (ustr ''Lot 42'') None) = None"
    by (simp add: out_path_lot42 open_full_disk)
  have "compose_final_pdf exact_env full_disk [ustr ''bc.pdf''] [ustr ''top.txt''] (ustr ''Lot 42'') None
          = (full_disk\<lparr>files := (files full_disk)(out_path_of [ustr ''bc.pdf''] (ustr ''Lot 42'') None
                                        \<mapsto> take 2 (PdfWriter exact_env [p])),
                       capacity := Some 0\<rparr>, Inl (OSError ENOSPC))"
    using compose_failure[of exact_env full_disk "[ustr ''bc.pdf'']" "[ustr ''top.txt'']"
        "ustr ''Lot 42''" None full_disk PdfReadError, THEN conjunct2, rule_format,
        of "ustr ''Lot 42''" "[39, 50]"
           "\<lparr>mediabox_width = 39, mediabox_height = 50, stream = Some [Foreign 0]\<rparr>" "[]" p 2]
      read_full_disk read_bc p o l files_full_disk
    by simp
  then have part: "compose_final_pdf exact_env full_disk [ustr ''bc.pdf''] [ustr ''top.txt''] (ustr ''Lot 42'') None
          = (full_disk\<lparr>files := (files full_disk)([ustr ''Lot 42.pdf'']
                                        \<mapsto> take 2 (PdfWriter exact_env [p])),
                       capacity := Some 0\<rparr>, Inl (OSError ENOSPC))"
    by (simp only: out_path_lot42)
  from run p l part o show ?thesis
    by (simp only: read_full_disk files_full_disk) blast
qed

text \<open>
  A label of 120 euro signs gives a file name of 364 bytes: \<open>open\<close> raises, the run fails,
  and the file system is as it was.
\<close>

lemma sanitize_euro_label: "sanitize_filename euro_label = euro_label"
proof -
  have a: "strip euro_label = euro_label"
    by (rule strip_id) (simp_all add: euro_label_def is_space_def)
  have b: "re_sub_runs forbidden (ustr ''-'') euro_label = euro_label"
    by (rule re_sub_runs_id) (auto simp: euro_label_def forbidden_def)
  have c: "re_sub_runs is_space (ustr '' '') euro_label = euro_label"
    by (rule re_sub_runs_id) (auto simp: euro_label_def is_space_def)
  show ?thesis
    by (simp add: sanitize_filename_def a b c) (simp add: euro_label_def)
qed

lemma compose_name_too_long:
  "name_bytes (euro_label @ ustr ''.pdf'') = 364 \<and>
   compose_final_pdf exact_env open_disk [ustr ''bc.pdf''] [ustr ''top.txt''] euro_label None
     = (open_disk, Inl (OSError ENAMETOOLONG))"
proof -
  obtain p where p: "compose_page exact_env (decode exact_env (ustr ''Lot 42''))
      \<lparr>mediabox_width = 39, mediabox_height = 50, stream = Some [Foreign 0]\<rparr> euro_label = Inr p"
    using compose_page_ok[of "\<lparr>mediabox_width = 39, mediabox_height = 50, stream = Some [Foreign 0]\<rparr>"] by fastforce
  have n: "name_bytes (euro_label @ ustr ''.pdf'') = 364"
    by (simp add: name_bytes_def euro_label_def utf8_len_def ustr_def sum_list_replicate)
  have nn: "\<not> has_nul [euro_label @ ustr ''.pdf'']"
    by (simp add: has_nul_def euro_label_def ustr_def)
  have o: "open_wb full_disk (out_path_of [ustr ''bc.pdf''] euro_label None)
             = Some (OSError ENAMETOOLONG)"
    by (simp add: out_path_of_def sanitize_euro_label parent_def open_wb_def nn n
          full_disk_def)
  show ?thesis
    by (simp add: n compose_final_pdf_def files_open_disk read_full_disk read_bc p
          write_file_def o)
qed

text \<open>
  C1, as stated: no failing run leaves a file at the output path. On the full device the
  source and the text are read, the page is composed, the output file is opened, and the
  write fails after two bytes: the error is returned, and the output path, where there was
  no file, holds the two bytes.
\<close>

theorem compose_partial_file_counterexample:
  "snd (compose_final_pdf exact_env full_disk [ustr ''bc.pdf''] [ustr ''top.txt''] (ustr ''Lot 42'') None)
     = Inl (OSError ENOSPC) \<and>
   files full_disk [ustr ''Lot 42.pdf''] = None \<and>
   files (fst (compose_final_pdf exact_env full_disk [ustr ''bc.pdf''] [ustr ''top.txt'']
                 (ustr ''Lot 42'') None)) [ustr ''Lot 42.pdf''] = Some (ustr ''%P'')"
proof -
  obtain p where "compose_final_pdf exact_env full_disk [ustr ''bc.pdf''] [ustr ''top.txt''] (ustr ''Lot 42'') None
     = write_file full_disk [ustr ''Lot 42.pdf''] (PdfWriter exact_env [p])"
    using run_full_disk by blast
  then show ?thesis
    by (simp add: write_file_def open_full_disk files_full_disk exact_env_def small_writer_def)
       (simp add: ustr_def)
qed

section \<open>Properties of the form\<close>

lemma strip_blank:
  assumes "\<forall>c\<in>set s. is_space c"
  shows "strip s = []"
proof -
  have "dropWhile is_space s = []" using assms by simp
  then show ?thesis by (simp only: strip_def rev.simps dropWhile.simps)
qed

text \<open>
  C7. A label that is empty or consists of whitespace only is rejected by \<open>create_pdf\<close>: the
  outcome is one of the three validation messages, the one for the label when the source and
  the text file are valid; \<open>compose_final_pdf\<close> is not called, and the file system is left
  as it was, so no output file is produced.
\<close>

theorem blank_label_rejected:
  assumes "\<forall>c\<in>set (label_text f). is_space c"
  shows "fst (create_pdf e w f) = w \<and>
         snd (create_pdf e w f) \<in> {InvalidPdf, InvalidTxt, LabelRequired} \<and>
         (strip (src_pdf f) \<noteq> [] \<and> path_exists w (Path e (strip (src_pdf f))) \<and>
          strip (txt_file f) \<noteq> [] \<and> path_exists w (Path e (strip (txt_file f)))
          \<longrightarrow> create_pdf e w f = (w, LabelRequired))"
  using strip_blank[OF assms] by (simp add: create_pdf_def Let_def)

theorem blank_label_rejected_witness:
  "label_text blank_form = ustr ''   '' \<and>
   create_pdf exact_env open_disk blank_form = (open_disk, LabelRequired)"
proof -
  have h: "\<forall>c\<in>set (label_text blank_form). is_space c"
    by (simp add: blank_form_def ustr_def is_space_def)
  have s: "strip (ustr ''bc.pdf'') = ustr ''bc.pdf''" "strip (ustr ''top.txt'') = ustr ''top.txt''"
    by (simp_all add: strip_def ustr_def is_space_def)
  have p: "Path exact_env = (\<lambda>s. [s])" by (simp add: exact_env_def)
  have e: "path_exists open_disk [ustr ''bc.pdf'']" "path_exists open_disk [ustr ''top.txt'']"
    by (simp_all add: path_exists_def files_open_disk files_full_disk dom_def)
  from blank_label_rejected[OF h, of exact_env open_disk] show ?thesis
    by (simp add: blank_form_def s p e) (simp add: ustr_def)
qed

text \<open>
  The check is made by the form only: called with the empty label, \<open>compose_final_pdf\<close>
  writes the file \<open>output.pdf\<close>.
\<close>

lemma compose_final_pdf_empty_label:
  "snd (compose_final_pdf exact_env open_disk [ustr ''bc.pdf''] [ustr ''top.txt''] [] None)
     = Inr [ustr ''output.pdf'']"
proof -
  obtain p where p: "compose_page exact_env (decode exact_env (ustr ''Lot 42''))
      \<lparr>mediabox_width = 39, mediabox_height = 50, stream = Some [Foreign 0]\<rparr> [] = Inr p"
    using compose_page_ok[of "\<lparr>mediabox_width = 39, mediabox_height = 50, stream = Some [Foreign 0]\<rparr>"] by fastforce
  have o: "out_path_of [ustr ''bc.pdf''] [] None = [ustr ''output.pdf'']"
    by (simp add: out_path_of_def sanitize_empty parent_def) (simp add: ustr_def)
  show ?thesis
    by (simp add: compose_final_pdf_def files_open_disk read_full_disk open_full_disk read_bc p o
          write_file_def)
qed

end
